theory Spec2Isabelle
  imports Complex_Main
begin

section \<open>Data model of \<open>analysis_rws.py\<close>\<close>

text \<open>
  The script works on a pandas DataFrame read from a CSV file. A float64 cell is either a
  number or NaN (a missing value); it is modelled as \<open>real option\<close>, \<open>None\<close> being NaN.
  A number is the real value of the float. The subtraction and the tolerance of the angle
  test are rounded as float64 arithmetic rounds them (to the nearest float, ties to the
  even mantissa); the sums and quotients inside the pandas reductions are taken exactly, and
  the infinities are not part of the model. Comparisons with NaN are false, arithmetic on
  NaN gives NaN, and the pandas reductions skip NaN, as in the library.
\<close>

type_synonym cell = "real option"

text \<open>
  One row of the frame: the six columns of the input file (\<open>Timestamp\<close>, \<open>Azimuth(deg)\<close>,
  \<open>Elevation(deg)\<close>, \<open>Distance(m)\<close>, \<open>RWS(m/s)\<close>, \<open>CNR(dB)\<close>) and the column \<open>AngleComb\<close>
  that \<open>get_data_overview\<close> adds (\<open>None\<close> while the frame has no such column).
\<close>

record lidar_record =
  Timestamp :: int
  Azimuth_deg :: cell
  Elevation_deg :: cell
  Distance_m :: cell
  RWS_m_s :: cell
  CNR_dB :: cell
  AngleComb :: "string option"

type_synonym dataframe = "lidar_record list"

datatype error = ZeroDivisionError | ValueError

subsection \<open>Elementwise float operations\<close>

definition cell_ge :: "cell \<Rightarrow> real \<Rightarrow> bool" where
  \<comment> \<open>\<open>x >= t\<close>: false for NaN\<close>
  "cell_ge x t = (case x of None \<Rightarrow> False | Some v \<Rightarrow> t \<le> v)"

definition cell_lt :: "cell \<Rightarrow> real \<Rightarrow> bool" where
  \<comment> \<open>\<open>x < t\<close>: false for NaN\<close>
  "cell_lt x t = (case x of None \<Rightarrow> False | Some v \<Rightarrow> v < t)"

text \<open>
  Rounding of a real to float64: the mantissa has 53 bits, so a number of binary exponent
  \<open>e\<close> is rounded to a multiple of \<open>2 powr (e - 52)\<close>, and the exponent is at least -1022
  (below that the floats are evenly spaced). A tie goes to the even multiple.
\<close>

definition round_half_even :: "real \<Rightarrow> int" where
  "round_half_even m =
     (let n = \<lfloor>m\<rfloor>; f = m - of_int n
      in if f < 1 / 2 then n else if 1 / 2 < f then n + 1 else if even n then n else n + 1)"

definition f64_exponent :: "real \<Rightarrow> int" where
  "f64_exponent x = max \<lfloor>log 2 x\<rfloor> (- 1022)"

definition round_f64 :: "real \<Rightarrow> real" where
  "round_f64 x =
     (if x = 0 then 0
      else let ulp = 2 powr (of_int (f64_exponent \<bar>x\<bar>) - 52)
           in sgn x * of_int (round_half_even (\<bar>x\<bar> / ulp)) * ulp)"

definition f64_sub :: "real \<Rightarrow> real \<Rightarrow> real" where
  \<comment> \<open>\<open>a - b\<close> on two floats\<close>
  "f64_sub a b = round_f64 (a - b)"

definition f64_tenth :: real where
  \<comment> \<open>the literal \<open>0.1\<close>\<close>
  "f64_tenth = round_f64 (1 / 10)"

definition cell_sub :: "cell \<Rightarrow> real \<Rightarrow> cell" where
  \<comment> \<open>\<open>x - t\<close>: NaN stays NaN\<close>
  "cell_sub x t = map_option (\<lambda>v. f64_sub v t) x"

definition cell_abs :: "cell \<Rightarrow> cell" where
  \<comment> \<open>\<open>np.abs(x)\<close>: NaN stays NaN\<close>
  "cell_abs x = map_option abs x"

section \<open>Quality filter\<close>

text \<open>
  \<^verbatim>\<open>
  def apply_cnr_filter(df, cnr_threshold=-20):
      before_count = len(df)
      df_filtered = df[df['CNR(dB)'] >= cnr_threshold].copy()
      after_count = len(df_filtered)
      print(... f"{after_count/before_count*100:.2f}%")
      return df_filtered
  \<close>
  Both counts are Python integers, so the ratio raises \<open>ZeroDivisionError\<close> when the
  input frame has no rows; the raise happens before the \<open>return\<close>.
\<close>

definition cnr_mask :: "real \<Rightarrow> lidar_record \<Rightarrow> bool" where
  "cnr_mask cnr_threshold r = cell_ge (CNR_dB r) cnr_threshold"

definition apply_cnr_filter :: "dataframe \<Rightarrow> real \<Rightarrow> error + dataframe" where
  "apply_cnr_filter df cnr_threshold =
     (let before_count = length df;
          df_filtered = filter (cnr_mask cnr_threshold) df;
          after_count = length df_filtered
      in if before_count = 0 then Inl ZeroDivisionError
         else Inr df_filtered)"

section \<open>pandas reductions over a float column\<close>

text \<open>
  The reductions the script calls on a \<open>Series\<close>, with the library's defaults: missing
  values are skipped (\<open>skipna=True\<close>), \<open>std\<close> divides by \<open>n - 1\<close> (\<open>ddof=1\<close>), \<open>quantile\<close>
  interpolates linearly between the order statistics around position \<open>q * (n - 1)\<close> and
  raises \<open>ValueError\<close> for a level outside \<open>[0, 1]\<close>; \<open>count\<close> counts the values that
  are present, \<open>len\<close> counts all cells. A reduction over no value gives NaN.
\<close>

definition dropna :: "cell list \<Rightarrow> real list" where
  "dropna xs = List.map_filter (\<lambda>x. x) xs"

definition series_count :: "cell list \<Rightarrow> nat" where
  "series_count xs = length (dropna xs)"

definition series_mean :: "cell list \<Rightarrow> cell" where
  "series_mean xs =
     (let v = dropna xs
      in if v = [] then None else Some (sum_list v / real (length v)))"

definition series_std :: "cell list \<Rightarrow> cell" where
  "series_std xs =
     (let v = dropna xs; n = length v
      in if n \<le> 1 then None
         else let m = sum_list v / real n
              in Some (sqrt (sum_list (map (\<lambda>x. (x - m)\<^sup>2) v) / real (n - 1))))"

definition series_min :: "cell list \<Rightarrow> cell" where
  "series_min xs = (case dropna xs of [] \<Rightarrow> None | v # vs \<Rightarrow> Some (fold min vs v))"

definition series_max :: "cell list \<Rightarrow> cell" where
  "series_max xs = (case dropna xs of [] \<Rightarrow> None | v # vs \<Rightarrow> Some (fold max vs v))"

definition series_median :: "cell list \<Rightarrow> cell" where
  "series_median xs =
     (let s = sort (dropna xs); n = length s
      in if n = 0 then None
         else if odd n then Some (s ! (n div 2))
         else Some ((s ! (n div 2 - 1) + s ! (n div 2)) / 2))"

definition series_quantile :: "cell list \<Rightarrow> real \<Rightarrow> error + cell" where
  "series_quantile xs q =
     (if q < 0 \<or> 1 < q then Inl ValueError
      else let s = sort (dropna xs); n = length s
           in if n = 0 then Inr None
              else let pos = q * real (n - 1);
                       lo = nat \<lfloor>pos\<rfloor>;
                       hi = nat \<lceil>pos\<rceil>
                   in Inr (Some (s ! lo + (s ! hi - s ! lo) * (pos - real lo))))"

section \<open>pandas \<open>groupby\<close>\<close>

text \<open>
  \<open>df.groupby(col)\<close> with the defaults \<open>sort=True\<close> and \<open>dropna=True\<close>: one group per
  distinct value of the key column, in ascending key order; rows whose key is NaN belong to
  no group; inside a group the rows keep their order. The groups are built row by row.
\<close>

fun add_to_group :: "real \<Rightarrow> 'a \<Rightarrow> (real \<times> 'a list) list \<Rightarrow> (real \<times> 'a list) list" where
  "add_to_group k r [] = [(k, [r])]"
| "add_to_group k r ((k', g) # gs) =
     (if k = k' then (k', g @ [r]) # gs
      else if k < k' then (k, [r]) # (k', g) # gs
      else (k', g) # add_to_group k r gs)"

definition groupby :: "('a \<Rightarrow> cell) \<Rightarrow> 'a list \<Rightarrow> (real \<times> 'a list) list" where
  "groupby key rows =
     fold (\<lambda>r gs. case key r of None \<Rightarrow> gs | Some k \<Rightarrow> add_to_group k r gs) rows []"

section \<open>Single-angle analysis\<close>

text \<open>
  The mask of lines 142-143 (and of lines 196-197, 269-270, 344-345):
  \<^verbatim>\<open>(np.abs(df['Azimuth(deg)'] - azimuth) < 0.1) & (np.abs(df['Elevation(deg)'] - elevation) < 0.1)\<close>
  and the one-angle masks of \<open>compare_elevations\<close> (line 513) and \<open>compare_azimuths\<close>
  (line 446). The subtraction is the float64 one and the tolerance is the float \<open>0.1\<close>. A
  difference beyond the float64 range is an infinity in the code and a large number here;
  the test fails on both.
\<close>

definition azimuth_mask :: "real \<Rightarrow> lidar_record \<Rightarrow> bool" where
  "azimuth_mask azimuth r = cell_lt (cell_abs (cell_sub (Azimuth_deg r) azimuth)) f64_tenth"

definition elevation_mask :: "real \<Rightarrow> lidar_record \<Rightarrow> bool" where
  "elevation_mask elevation r =
     cell_lt (cell_abs (cell_sub (Elevation_deg r) elevation)) f64_tenth"

definition angle_mask :: "real \<Rightarrow> real \<Rightarrow> lidar_record \<Rightarrow> bool" where
  "angle_mask azimuth elevation r = (azimuth_mask azimuth r \<and> elevation_mask elevation r)"

text \<open>
  The dictionary \<open>stats\<close> of \<open>single_angle_statistics\<close>. Its keys are Chinese labels; the
  fields below stand for them in the source's order: number of data points (\<open>len(data)\<close>),
  mean, median, standard deviation, minimum, maximum and the quantiles at 0.1, 0.5, 0.9.
\<close>

record angle_stats =
  st_count :: nat
  st_mean :: cell
  st_median :: cell
  st_std :: cell
  st_min :: cell
  st_max :: cell
  st_P10 :: cell
  st_P50 :: cell
  st_P90 :: cell

text \<open>
  \<open>single_angle_statistics\<close> returns \<open>None\<close> (after a warning) when no row matches, and
  the dictionary otherwise.
\<close>

definition single_angle_statistics ::
  "dataframe \<Rightarrow> real \<Rightarrow> real \<Rightarrow> error + angle_stats option" where
  "single_angle_statistics df azimuth elevation =
     (let data = map RWS_m_s (filter (angle_mask azimuth elevation) df)
      in if length data = 0 then Inr None
         else case series_quantile data (1 / 10) of Inl e \<Rightarrow> Inl e | Inr p10 \<Rightarrow>
              (case series_quantile data (1 / 2) of Inl e \<Rightarrow> Inl e | Inr p50 \<Rightarrow>
              (case series_quantile data (9 / 10) of Inl e \<Rightarrow> Inl e | Inr p90 \<Rightarrow>
                 Inr (Some \<lparr>st_count = length data,
                            st_mean = series_mean data,
                            st_median = series_median data,
                            st_std = series_std data,
                            st_min = series_min data,
                            st_max = series_max data,
                            st_P10 = p10, st_P50 = p50, st_P90 = p90\<rparr>))))"

text \<open>
  \<open>analyze_rws_by_distance\<close>: the table \<open>distance_stats\<close>, one row per range gate with the
  columns \<open>Distance(m)\<close>, mean, standard deviation, minimum, maximum and number of data
  points (Chinese labels in the source); the last one is the aggregation \<open>'count'\<close>. The function returns \<open>None\<close> when no row matches the angles. The
  chart drawn from the table is left to the plotting library.
\<close>

record distance_row =
  dr_distance :: real
  dr_mean :: cell
  dr_std :: cell
  dr_min :: cell
  dr_max :: cell
  dr_count :: nat

definition analyze_rws_by_distance ::
  "dataframe \<Rightarrow> real \<Rightarrow> real \<Rightarrow> distance_row list option" where
  "analyze_rws_by_distance df azimuth elevation =
     (let data = filter (angle_mask azimuth elevation) df
      in if length data = 0 then None
         else Some (map (\<lambda>(d, g). let x = map RWS_m_s g
                                   in \<lparr>dr_distance = d,
                                       dr_mean = series_mean x,
                                       dr_std = series_std x,
                                       dr_min = series_min x,
                                       dr_max = series_max x,
                                       dr_count = series_count x\<rparr>)
                        (groupby Distance_m data)))"

text \<open>
  \<open>compare_cnr_filtering\<close>: the two dictionaries \<open>stats_before\<close> and \<open>stats_after\<close> (number
  of data points by \<open>len\<close>, then mean, standard deviation, minimum and maximum of RWS) and
  the retention rate it prints. The Python function returns nothing in either case; the
  result here is what it reports, \<open>None\<close> standing for the early return of line 350. Only
  the selection by angle is checked for emptiness (line 348).
\<close>

record cnr_stats =
  cs_count :: nat
  cs_mean :: cell
  cs_std :: cell
  cs_min :: cell
  cs_max :: cell

record cnr_report =
  stats_before :: cnr_stats
  stats_after :: cnr_stats
  retention :: real

definition rws_stats :: "dataframe \<Rightarrow> cnr_stats" where
  "rws_stats d =
     \<lparr>cs_count = length d,
      cs_mean = series_mean (map RWS_m_s d),
      cs_std = series_std (map RWS_m_s d),
      cs_min = series_min (map RWS_m_s d),
      cs_max = series_max (map RWS_m_s d)\<rparr>"

definition compare_cnr_filtering ::
  "dataframe \<Rightarrow> real \<Rightarrow> real \<Rightarrow> real \<Rightarrow> cnr_report option" where
  "compare_cnr_filtering df azimuth elevation cnr_threshold =
     (let data_all = filter (angle_mask azimuth elevation) df
      in if length data_all = 0 then None
         else let data_filtered = filter (cnr_mask cnr_threshold) data_all
              in Some \<lparr>stats_before = rws_stats data_all,
                       stats_after = rws_stats data_filtered,
                       retention = real (length data_filtered) / real (length data_all) * 100\<rparr>)"

section \<open>Wind rose\<close>

text \<open>
  \<^verbatim>\<open>
  azimuth_stats = df.groupby('Azimuth(deg)')['RWS(m/s)'].agg([
      ('mean', 'mean'), ('abs_mean', lambda x: np.abs(x).mean())]).reset_index()
  theta = np.deg2rad(azimuth_stats['Azimuth(deg)'])
  r = azimuth_stats['abs_mean']
  \<close>
  (the two column labels are Chinese in the source). \<open>plot_wind_rose\<close> draws one bar per
  pair of \<open>zip(theta, r)\<close>; these pairs are its result here.
\<close>

record rose_row =
  rr_azimuth :: real
  rr_mean :: cell
  rr_abs_mean :: cell

definition azimuth_stats :: "dataframe \<Rightarrow> rose_row list" where
  "azimuth_stats df =
     map (\<lambda>(a, g). \<lparr>rr_azimuth = a,
                     rr_mean = series_mean (map RWS_m_s g),
                     rr_abs_mean = series_mean (map cell_abs (map RWS_m_s g))\<rparr>)
         (groupby Azimuth_deg df)"

definition deg2rad :: "real \<Rightarrow> real" where
  "deg2rad x = x * pi / 180"

definition plot_wind_rose :: "dataframe \<Rightarrow> (real \<times> cell) list" where
  "plot_wind_rose df =
     (let theta = map (\<lambda>row. deg2rad (rr_azimuth row)) (azimuth_stats df);
          r = map rr_abs_mean (azimuth_stats df)
      in zip theta r)"

section \<open>Overview and the frame passed on by \<open>main\<close>\<close>

text \<open>
  \<open>get_data_overview\<close> prints summary figures, assigns the column \<open>AngleComb\<close> and returns
  the frame it was given:
  \<^verbatim>\<open>
  df['AngleComb'] = df['Azimuth(deg)'].round(2).astype(str) + '_' + df['Elevation(deg)'].round(2).astype(str)
  return df
  \<close>
  The rendering \<open>x.round(2).astype(str)\<close> of a float cell as text is a parameter
  (\<open>round2_str\<close>). The definition gives the value of the frame after the call.
\<close>

definition get_data_overview :: "(cell \<Rightarrow> string) \<Rightarrow> dataframe \<Rightarrow> dataframe" where
  "get_data_overview round2_str df =
     map (\<lambda>r. r\<lparr>AngleComb :=
                    Some (round2_str (Azimuth_deg r) @ ''_'' @ round2_str (Elevation_deg r))\<rparr>) df"

text \<open>
  In \<open>main\<close> the loaded frame goes through \<open>get_data_overview\<close> (line 762); the variable
  \<open>df\<close> is not assigned again, and \<open>plot_wind_rose(df, output_dir)\<close> (line 822) receives it
  when the run gets there.
\<close>

definition main_wind_rose :: "(cell \<Rightarrow> string) \<Rightarrow> dataframe \<Rightarrow> (real \<times> cell) list" where
  "main_wind_rose round2_str loaded =
     (let df = get_data_overview round2_str loaded in plot_wind_rose df)"

section \<open>Frames as objects\<close>

text \<open>
  A DataFrame is a mutable object and a Python variable holds a reference to it. The store
  lists the frames that exist; a reference is a position in it. Indexing with a mask
  (\<open>df[mask]\<close>) and \<open>.copy()\<close> make a new frame, the column assignment
  \<open>df['AngleComb'] = ...\<close> changes the frame that \<open>df\<close> refers to. The functions below are the
  stage functions at this level: they take the reference of their argument and the store.
\<close>

type_synonym ref = nat
type_synonym store = "dataframe list"

definition new_frame :: "dataframe \<Rightarrow> store \<Rightarrow> ref \<times> store" where
  "new_frame d s = (length s, s @ [d])"

definition get_data_overview_obj :: "(cell \<Rightarrow> string) \<Rightarrow> ref \<Rightarrow> store \<Rightarrow> ref \<times> store" where
  "get_data_overview_obj round2_str df s = (df, s[df := get_data_overview round2_str (s ! df)])"

definition apply_cnr_filter_obj :: "ref \<Rightarrow> real \<Rightarrow> store \<Rightarrow> error + ref \<times> store" where
  "apply_cnr_filter_obj df cnr_threshold s =
     (case apply_cnr_filter (s ! df) cnr_threshold of
        Inl e \<Rightarrow> Inl e
      | Inr df_filtered \<Rightarrow> Inr (new_frame df_filtered s))"

definition single_angle_statistics_obj ::
  "ref \<Rightarrow> real \<Rightarrow> real \<Rightarrow> store \<Rightarrow> (error + angle_stats option) \<times> store" where
  "single_angle_statistics_obj df azimuth elevation s =
     (let (selected, s') = new_frame (filter (angle_mask azimuth elevation) (s ! df)) s
      in (single_angle_statistics (s ! df) azimuth elevation, s'))"

text \<open>The cells of a row in the six columns read from the file.\<close>

definition loaded_columns :: "lidar_record \<Rightarrow> int \<times> cell \<times> cell \<times> cell \<times> cell \<times> cell" where
  "loaded_columns r =
     (Timestamp r, Azimuth_deg r, Elevation_deg r, Distance_m r, RWS_m_s r, CNR_dB r)"

section \<open>Records of the worked examples\<close>

definition beam :: "real \<Rightarrow> real \<Rightarrow> real \<Rightarrow> cell \<Rightarrow> real \<Rightarrow> lidar_record" where
  "beam az el d v c =
     \<lparr>Timestamp = 0, Azimuth_deg = Some az, Elevation_deg = Some el, Distance_m = Some d,
      RWS_m_s = v, CNR_dB = Some c, AngleComb = None\<rparr>"

section \<open>Properties of the quality filter\<close>

lemma cell_ge_iff: "cell_ge x t \<longleftrightarrow> (\<exists>v. x = Some v \<and> t \<le> v)"
  by (cases x) (simp_all add: cell_ge_def)

lemma cnr_mask_antimono: "t1 \<le> t2 \<Longrightarrow> cnr_mask t2 r \<Longrightarrow> cnr_mask t1 r"
  by (auto simp: cnr_mask_def cell_ge_iff)

lemma length_filter_mono:
  "(\<And>x. x \<in> set xs \<Longrightarrow> P x \<Longrightarrow> Q x) \<Longrightarrow> length (filter P xs) \<le> length (filter Q xs)"
  by (induction xs) auto

text \<open>
  On a frame with at least one row the filter returns the rows whose CNR is a number not
  below the threshold, in their order and as they are.
\<close>

lemma apply_cnr_filter_rows:
  "df \<noteq> [] \<Longrightarrow> apply_cnr_filter df t = Inr (filter (\<lambda>r. cell_ge (CNR_dB r) t) df)"
  by (simp add: apply_cnr_filter_def cnr_mask_def [abs_def])

lemma apply_cnr_filter_twice:
  assumes "apply_cnr_filter df t = Inr kept" and "kept \<noteq> []"
  shows "apply_cnr_filter kept t = Inr kept"
proof -
  from assms(1) have "kept = filter (cnr_mask t) df"
    by (simp add: apply_cnr_filter_def split: if_splits)
  then have "filter (cnr_mask t) kept = kept" by simp
  with assms(2) show ?thesis by (simp add: apply_cnr_filter_def)
qed

text \<open>
  C1. The filter is to return the rows with CNR at or above the threshold for every frame.
  On the frame without rows the retained/total ratio divides by zero and the call raises
  instead of returning the empty frame.
\<close>

theorem apply_cnr_filter_empty_default_raises:
  "apply_cnr_filter [] (- 20) = Inl ZeroDivisionError"
  by (simp add: apply_cnr_filter_def)

text \<open>
  C5. Filtering twice with one threshold is to give what filtering once gives. When the
  first pass keeps no row (one row with CNR -25, threshold -20), the first pass returns the
  empty frame and the second pass, run on it, raises.
\<close>

theorem apply_cnr_filter_second_pass_raises:
  "apply_cnr_filter [beam 0 0 50 (Some 1) (- 25)] (- 20) = Inr [] \<and>
   (case apply_cnr_filter [beam 0 0 50 (Some 1) (- 25)] (- 20) of
      Inl e \<Rightarrow> Inl e
    | Inr once \<Rightarrow> apply_cnr_filter once (- 20)) = Inl ZeroDivisionError"
  by (simp add: apply_cnr_filter_def cnr_mask_def cell_ge_def beam_def)

text \<open>
  C6. Raising the threshold never increases the number of rows retained: for thresholds
  \<open>t1 \<le> t2\<close> the filter either returns for both, with no more rows for \<open>t2\<close> than for
  \<open>t1\<close>, or (on the frame without rows) raises the same error for both.
\<close>

theorem apply_cnr_filter_monotonic:
  assumes "t1 \<le> t2"
  shows "case apply_cnr_filter df t1 of
           Inl e \<Rightarrow> df = [] \<and> apply_cnr_filter df t2 = Inl e
         | Inr kept1 \<Rightarrow>
             (\<exists>kept2. apply_cnr_filter df t2 = Inr kept2 \<and> length kept2 \<le> length kept1)"
proof (cases "df = []")
  case True
  then show ?thesis by (simp add: apply_cnr_filter_def)
next
  case False
  have "length (filter (cnr_mask t2) df) \<le> length (filter (cnr_mask t1) df)"
    by (rule length_filter_mono) (rule cnr_mask_antimono [OF assms])
  with False show ?thesis by (simp add: apply_cnr_filter_def)
qed

theorem apply_cnr_filter_monotonic_witness:
  "(- 20 :: real) \<le> - 15 \<and>
   apply_cnr_filter [beam 0 0 50 (Some 1) (- 25), beam 0 0 50 (Some 2) (- 18),
                     beam 0 0 50 (Some 3) (- 10)] (- 20)
     = Inr [beam 0 0 50 (Some 2) (- 18), beam 0 0 50 (Some 3) (- 10)] \<and>
   apply_cnr_filter [beam 0 0 50 (Some 1) (- 25), beam 0 0 50 (Some 2) (- 18),
                     beam 0 0 50 (Some 3) (- 10)] (- 15)
     = Inr [beam 0 0 50 (Some 3) (- 10)]"
  using apply_cnr_filter_monotonic [of "- 20" "- 15"
      "[beam 0 0 50 (Some 1) (- 25), beam 0 0 50 (Some 2) (- 18), beam 0 0 50 (Some 3) (- 10)]"]
  by (simp add: apply_cnr_filter_def cnr_mask_def cell_ge_def beam_def)

text \<open>
  C10. On the frame without rows the filter does not return: for every threshold the ratio
  \<open>after_count/before_count\<close> divides by zero and the call ends with \<open>ZeroDivisionError\<close>
  instead of the empty frame.
\<close>

theorem apply_cnr_filter_empty_raises:
  "apply_cnr_filter [] t = Inl ZeroDivisionError \<and> apply_cnr_filter [] t \<noteq> Inr []"
  by (simp add: apply_cnr_filter_def)

section \<open>The float64 angle test\<close>

lemma round_half_even_ge: "of_int k \<le> m \<Longrightarrow> k \<le> round_half_even m"
  unfolding round_half_even_def Let_def by (auto simp: le_floor_iff) linarith+

lemma round_half_even_le: "m \<le> of_int k \<Longrightarrow> round_half_even m \<le> k"
  unfolding round_half_even_def Let_def
  by (auto simp: floor_le_iff)

lemma round_half_even_less_even:
  assumes "even M"
  shows "round_half_even m < M \<longleftrightarrow> m < of_int M - 1 / 2"
proof -
  define n where "n = \<lfloor>m\<rfloor>"
  have lo: "of_int n \<le> m" and hi: "m < of_int n + 1"
    unfolding n_def by linarith+
  consider (below) "m - of_int n < 1 / 2" | (above) "1 / 2 < m - of_int n"
    | (tie) "m - of_int n = 1 / 2"
    by linarith
  then show ?thesis
  proof cases
    case below
    then have r: "round_half_even m = n"
      by (simp add: round_half_even_def n_def)
    show ?thesis
    proof
      assume "round_half_even m < M"
      with r have "n + 1 \<le> M" by simp
      then have "of_int n + 1 \<le> (of_int M :: real)" by linarith
      with below show "m < of_int M - 1 / 2" by linarith
    next
      assume "m < of_int M - 1 / 2"
      with lo have "(of_int n :: real) < of_int M" by linarith
      with r show "round_half_even m < M" by simp
    qed
  next
    case above
    then have r: "round_half_even m = n + 1"
      by (simp add: round_half_even_def n_def)
    show ?thesis
    proof
      assume "round_half_even m < M"
      with r have "n + 2 \<le> M" by simp
      then have "of_int n + 2 \<le> (of_int M :: real)" by linarith
      with hi show "m < of_int M - 1 / 2" by linarith
    next
      assume "m < of_int M - 1 / 2"
      with above have "(of_int n :: real) + 1 < of_int M" by linarith
      then have "n + 1 < M" by linarith
      with r show "round_half_even m < M" by simp
    qed
  next
    case tie
    then have r: "round_half_even m = (if even n then n else n + 1)"
      by (simp add: round_half_even_def n_def)
    have ev: "even (round_half_even m)" by (simp add: r)
    show ?thesis
    proof
      assume a: "round_half_even m < M"
      from a ev assms have "round_half_even m + 2 \<le> M"
        by presburger
      with r have "n + 2 \<le> M" by (simp split: if_splits)
      then have "of_int n + 2 \<le> (of_int M :: real)" by linarith
      with tie show "m < of_int M - 1 / 2" by linarith
    next
      assume "m < of_int M - 1 / 2"
      with tie have "(of_int n :: real) + 1 < of_int M" by linarith
      then have "n + 1 < M" by linarith
      with r show "round_half_even m < M" by (simp split: if_splits)
    qed
  qed
qed

lemma f64_exponent_eq:
  "0 < x \<Longrightarrow> 2 powr of_int e \<le> x \<Longrightarrow> x < 2 powr (of_int e + 1) \<Longrightarrow> - 1022 \<le> e \<Longrightarrow> f64_exponent x = e"
  unfolding f64_exponent_def using floor_log_eq_powr_iff [of x 2 e] by simp

lemma exp_bounds:
  assumes "0 < x"
  shows "2 powr of_int \<lfloor>log 2 x\<rfloor> \<le> x" "x < 2 powr (of_int \<lfloor>log 2 x\<rfloor> + 1)"
  using floor_log_eq_powr_iff [of x 2 "\<lfloor>log 2 x\<rfloor>"] assms by simp_all

lemma two_powr_m3: "(2::real) powr (- 3) = 1 / 8"
  by (simp add: powr_minus_divide)

lemma two_powr_m4: "(2::real) powr (- 4) = 1 / 16"
  by (simp add: powr_minus_divide)

lemma two_powr_m56: "(2::real) powr (- 56) = 1 / 2 ^ 56"
  by (simp add: powr_minus_divide)

lemma round_f64_nonneg: "0 \<le> x \<Longrightarrow> 0 \<le> round_f64 x"
proof (cases "x = 0")
  case True
  then show ?thesis by (simp add: round_f64_def)
next
  case False
  assume "0 \<le> x"
  let ?ulp = "2 powr (of_int (f64_exponent \<bar>x\<bar>) - 52) :: real"
  have "(of_int 0 :: real) \<le> \<bar>x\<bar> / ?ulp" by simp
  then have "0 \<le> round_half_even (\<bar>x\<bar> / ?ulp)" by (rule round_half_even_ge)
  with False \<open>0 \<le> x\<close> show ?thesis
    by (simp add: round_f64_def Let_def)
qed

lemma round_f64_abs:
  assumes "x \<noteq> 0"
  shows "\<bar>round_f64 x\<bar> =
           of_int (round_half_even (\<bar>x\<bar> / 2 powr (of_int (f64_exponent \<bar>x\<bar>) - 52))) *
             2 powr (of_int (f64_exponent \<bar>x\<bar>) - 52)"
proof -
  let ?ulp = "2 powr (of_int (f64_exponent \<bar>x\<bar>) - 52) :: real"
  have "(of_int 0 :: real) \<le> \<bar>x\<bar> / ?ulp" by simp
  then have "0 \<le> round_half_even (\<bar>x\<bar> / ?ulp)" by (rule round_half_even_ge)
  with assms show ?thesis
    by (simp add: round_f64_def Let_def abs_mult)
qed

lemma round_f64_binade:
  assumes "1 / 16 \<le> a" and "a < 1 / 8"
  shows "\<bar>round_f64 a\<bar> = of_int (round_half_even (a * 2 ^ 56)) / 2 ^ 56"
proof -
  have pos: "0 < a" using assms by simp
  have e: "f64_exponent a = - 4"
    using assms pos by (intro f64_exponent_eq) (simp_all add: two_powr_m3 two_powr_m4)
  from pos have "a \<noteq> 0" "\<bar>a\<bar> = a" by simp_all
  with round_f64_abs [of a] e show ?thesis by (simp add: two_powr_m56)
qed

lemma f64_tenth_eq: "f64_tenth = 7205759403792794 / 2 ^ 56"
proof -
  have "\<bar>round_f64 (1 / 10)\<bar> = of_int (round_half_even ((1 / 10) * 2 ^ 56)) / 2 ^ 56"
    by (rule round_f64_binade) simp_all
  moreover have "round_half_even ((1 / 10) * 2 ^ 56) = 7205759403792794"
    by (simp add: round_half_even_def)
  moreover have "0 \<le> round_f64 (1 / 10)"
    by (rule round_f64_nonneg) simp
  ultimately show ?thesis by (simp add: f64_tenth_def)
qed

lemma round_f64_small:
  assumes "0 < a" and "a < 1 / 16"
  shows "\<bar>round_f64 a\<bar> \<le> 1 / 16"
proof -
  define E where "E = \<lfloor>log 2 a\<rfloor>"
  define e where "e = f64_exponent a"
  let ?ulp = "2 powr (of_int e - 52) :: real"
  have b: "2 powr of_int E \<le> a" "a < 2 powr (of_int E + 1)"
    unfolding E_def using exp_bounds [OF assms(1)] by simp_all
  have "2 powr of_int E < (2::real) powr (- 4)" using b(1) assms(2) by (simp add: two_powr_m4)
  then have "of_int E < (- 4 :: real)" by (simp only: powr_less_cancel_iff) 
  then have E: "E \<le> - 5" by linarith
  have e: "E \<le> e" "e \<le> - 5" using E by (simp_all add: e_def f64_exponent_def E_def)
  have "a < 2 powr (of_int e + 1)"
    using b(2) e(1) by (smt (verit) powr_mono of_int_le_iff)
  also have "\<dots> = 2 ^ 53 * ?ulp"
    by (simp add: powr_diff powr_add)
  finally have "a / ?ulp < 2 ^ 53" by (simp add: field_simps)
  then have "a / ?ulp \<le> of_int (2 ^ 53)" by simp
  then have "round_half_even (a / ?ulp) \<le> 2 ^ 53" by (rule round_half_even_le)
  then have "of_int (round_half_even (a / ?ulp)) * ?ulp \<le> 2 ^ 53 * ?ulp"
    by (simp add: mult_right_mono)
  also have "2 ^ 53 * ?ulp = 2 powr (of_int e + 1)"
    by (simp add: powr_diff powr_add)
  also have "\<dots> \<le> 2 powr (- 4)"
    using e(2) by (intro powr_mono) simp_all
  finally have "of_int (round_half_even (a / ?ulp)) * ?ulp \<le> 1 / 16" by (simp add: two_powr_m4)
  moreover from assms(1) have "a \<noteq> 0" "\<bar>a\<bar> = a" by simp_all
  ultimately show ?thesis using round_f64_abs [of a] by (simp add: e_def)
qed

lemma round_f64_large:
  assumes "1 / 8 \<le> a"
  shows "1 / 8 \<le> \<bar>round_f64 a\<bar>"
proof -
  have pos: "0 < a" using assms by simp
  define E where "E = \<lfloor>log 2 a\<rfloor>"
  let ?ulp = "2 powr (of_int E - 52) :: real"
  have b: "2 powr of_int E \<le> a" "a < 2 powr (of_int E + 1)"
    unfolding E_def using exp_bounds [OF pos] by simp_all
  have "(2::real) powr (- 3) < 2 powr (of_int E + 1)" using b(2) assms by (simp add: two_powr_m3)
  then have "(- 3 :: real) < of_int E + 1" by (simp only: powr_less_cancel_iff)
  then have E: "- 3 \<le> E" by linarith
  then have e: "f64_exponent a = E" by (simp add: f64_exponent_def E_def)
  have "2 ^ 52 * ?ulp = 2 powr of_int E"
    by (simp add: powr_diff)
  with b(1) have "2 ^ 52 \<le> a / ?ulp" by (simp add: field_simps)
  then have "of_int (2 ^ 52) \<le> a / ?ulp" by simp
  then have N: "2 ^ 52 \<le> round_half_even (a / ?ulp)" by (rule round_half_even_ge)
  have "(1 / 8 :: real) = 2 powr (- 3)" by (simp add: two_powr_m3)
  also have "\<dots> \<le> 2 powr of_int E"
    using E by (intro powr_mono) simp_all
  also have "\<dots> = 2 ^ 52 * ?ulp"
    by (simp add: powr_diff)
  also have "\<dots> \<le> of_int (round_half_even (a / ?ulp)) * ?ulp"
    using N by (intro mult_right_mono) simp_all
  finally have "1 / 8 \<le> of_int (round_half_even (a / ?ulp)) * ?ulp" .
  moreover from pos have "a \<noteq> 0" "\<bar>a\<bar> = a" by simp_all
  ultimately show ?thesis using round_f64_abs [of a] e by simp
qed

lemma round_f64_neg: "round_f64 (- x) = - round_f64 x"
  by (simp add: round_f64_def Let_def sgn_minus)

lemma round_f64_lt_tenth_pos:
  assumes "0 < a"
  shows "\<bar>round_f64 a\<bar> < f64_tenth \<longleftrightarrow> a < 14411518807585587 / 2 ^ 57"
proof -
  consider "a < 1 / 16" | "1 / 16 \<le> a" "a < 1 / 8" | "1 / 8 \<le> a" by linarith
  then show ?thesis
  proof cases
    case 1
    with round_f64_small [OF assms] show ?thesis by (simp add: f64_tenth_eq)
  next
    case 2
    have "even (7205759403792794 :: int)" by simp
    from round_half_even_less_even [OF this, of "a * 2 ^ 56"]
    have "round_half_even (a * 2 ^ 56) < 7205759403792794 \<longleftrightarrow> a * 2 ^ 56 < 7205759403792794 - 1 / 2"
      by simp
    moreover have "\<bar>round_f64 a\<bar> < f64_tenth \<longleftrightarrow> round_half_even (a * 2 ^ 56) < 7205759403792794"
    proof -
      have "\<bar>round_f64 a\<bar> < f64_tenth \<longleftrightarrow>
              (of_int (round_half_even (a * 2 ^ 56)) :: real) / 2 ^ 56 < 7205759403792794 / 2 ^ 56"
        by (simp only: round_f64_binade [OF 2] f64_tenth_eq)
      also have "\<dots> \<longleftrightarrow> (of_int (round_half_even (a * 2 ^ 56)) :: real) < 7205759403792794"
        by (simp add: divide_less_cancel)
      also have "\<dots> \<longleftrightarrow> round_half_even (a * 2 ^ 56) < 7205759403792794"
        by simp
      finally show ?thesis .
    qed
    ultimately show ?thesis by (simp add: field_simps)
  next
    case 3
    with round_f64_large [OF 3] show ?thesis by (simp add: f64_tenth_eq)
  qed
qed

lemma round_f64_lt_tenth:
  "\<bar>round_f64 d\<bar> < f64_tenth \<longleftrightarrow> \<bar>d\<bar> < 14411518807585587 / 2 ^ 57"
proof (cases "d = 0")
  case True
  then show ?thesis by (simp add: round_f64_def f64_tenth_eq)
next
  case False
  show ?thesis
  proof (cases "0 < d")
    case True
    with round_f64_lt_tenth_pos [of d] show ?thesis by simp
  next
    case neg: False
    with False have "0 < - d" by simp
    from round_f64_lt_tenth_pos [OF this] neg show ?thesis
      by (simp add: round_f64_neg)
  qed
qed



section \<open>Angle selection\<close>

lemma angle_test_iff:
  "cell_lt (cell_abs (cell_sub c t)) f64_tenth \<longleftrightarrow>
     (\<exists>x. c = Some x \<and> \<bar>x - t\<bar> < 14411518807585587 / 2 ^ 57)"
  by (cases c)
     (simp_all add: cell_lt_def cell_abs_def cell_sub_def f64_sub_def round_f64_lt_tenth)

lemma azimuth_mask_iff:
  "azimuth_mask a r \<longleftrightarrow>
     (\<exists>x. Azimuth_deg r = Some x \<and> \<bar>x - a\<bar> < 14411518807585587 / 2 ^ 57)"
  by (simp add: azimuth_mask_def angle_test_iff)

lemma elevation_mask_iff:
  "elevation_mask e r \<longleftrightarrow>
     (\<exists>y. Elevation_deg r = Some y \<and> \<bar>y - e\<bar> < 14411518807585587 / 2 ^ 57)"
  by (simp add: elevation_mask_def angle_test_iff)






section \<open>Properties of \<open>groupby\<close>\<close>

lemma groupby_Nil: "groupby key [] = []"
  by (simp add: groupby_def)

lemma groupby_snoc:
  "groupby key (rows @ [r]) =
     (case key r of None \<Rightarrow> groupby key rows | Some k \<Rightarrow> add_to_group k r (groupby key rows))"
  by (simp add: groupby_def split: option.splits)

text \<open>Every row with a key lands in exactly one group.\<close>

lemma count_add_to_group:
  "(\<Sum>(k', g) \<leftarrow> add_to_group k r gs. length (filter P g)) =
     (if P r then 1 else 0) + (\<Sum>(k', g) \<leftarrow> gs. length (filter P g))"
  by (induction gs) auto

lemma count_groupby:
  "(\<Sum>(k, g) \<leftarrow> groupby key rows. length (filter P g)) =
     length (filter (\<lambda>r. key r \<noteq> None \<and> P r) rows)"
proof (induction rows rule: rev_induct)
  case Nil
  show ?case by (simp add: groupby_Nil)
next
  case (snoc r rows)
  show ?case
  proof (cases "key r")
    case None
    with snoc show ?thesis by (simp add: groupby_snoc)
  next
    case (Some k)
    with snoc show ?thesis by (simp add: groupby_snoc count_add_to_group)
  qed
qed

text \<open>The keys stay strictly ascending, so each key has one group.\<close>

lemma keys_add_to_group:
  "set (map fst (add_to_group k r gs)) = insert k (set (map fst gs))"
proof (induction gs)
  case Nil
  show ?case by simp
next
  case (Cons p gs)
  obtain k' g where p: "p = (k', g)" by (cases p)
  from Cons p show ?case by (simp del: set_map) blast
qed

lemma sorted_add_to_group:
  "sorted_wrt (<) (map fst gs) \<Longrightarrow> sorted_wrt (<) (map fst (add_to_group k r gs))"
proof (induction gs)
  case Nil
  show ?case by simp
next
  case (Cons p gs)
  obtain k' g where p: "p = (k', g)" by (cases p)
  have keys: "set (map fst (add_to_group k r gs)) = insert k (set (map fst gs))"
    by (rule keys_add_to_group)
  from Cons p keys show ?case by auto
qed

lemma sorted_groupby: "sorted_wrt (<) (map fst (groupby key rows))"
proof (induction rows rule: rev_induct)
  case Nil
  show ?case by (simp add: groupby_Nil)
next
  case (snoc r rows)
  then show ?case
    by (cases "key r") (simp_all add: groupby_snoc sorted_add_to_group)
qed

lemma keys_groupby: "set (map fst (groupby key rows)) = {k. Some k \<in> key ` set rows}"
proof (induction rows rule: rev_induct)
  case Nil
  show ?case by (simp add: groupby_Nil)
next
  case (snoc r rows)
  show ?case
  proof (cases "key r")
    case None
    with snoc show ?thesis by (auto simp: groupby_snoc)
  next
    case (Some k)
    have "set (map fst (groupby key (rows @ [r]))) = insert k (set (map fst (groupby key rows)))"
      using Some by (simp add: groupby_snoc keys_add_to_group del: set_map)
    with snoc Some show ?thesis by (auto simp: image_iff)
  qed
qed

text \<open>The group of a key holds the rows with that key, in the order of the frame.\<close>

lemma lookup_add_to_group:
  "sorted_wrt (<) (map fst gs) \<Longrightarrow>
   map_of (add_to_group k r gs) =
     (map_of gs)(k \<mapsto> (case map_of gs k of None \<Rightarrow> [r] | Some g \<Rightarrow> g @ [r]))"
proof (induction gs)
  case Nil
  show ?case by simp
next
  case (Cons p gs)
  obtain k' g where p: "p = (k', g)" by (cases p)
  show ?case
  proof (cases "k = k'")
    case True
    with p show ?thesis by (auto simp: fun_eq_iff)
  next
    case ne: False
    show ?thesis
    proof (cases "k < k'")
      case True
      with Cons.prems p have "k \<notin> set (map fst gs)" by auto
      then have "map_of gs k = None" by (simp add: map_of_eq_None_iff)
      with True ne p show ?thesis by (auto simp: fun_eq_iff)
    next
      case False
      with Cons ne p show ?thesis by (auto simp: fun_eq_iff)
    qed
  qed
qed

lemma lookup_groupby:
  "map_of (groupby key rows) k =
     (if Some k \<in> key ` set rows then Some (filter (\<lambda>r. key r = Some k) rows) else None)"
proof (induction rows arbitrary: k rule: rev_induct)
  case Nil
  show ?case by (simp add: groupby_Nil)
next
  case (snoc r rows)
  show ?case
  proof (cases "key r")
    case None
    with snoc show ?thesis by (auto simp: groupby_snoc image_iff)
  next
    case (Some k')
    have "map_of (groupby key (rows @ [r])) =
            (map_of (groupby key rows))
              (k' \<mapsto> (case map_of (groupby key rows) k' of None \<Rightarrow> [r] | Some g \<Rightarrow> g @ [r]))"
      using Some by (simp add: groupby_snoc lookup_add_to_group [OF sorted_groupby])
    with snoc Some show ?thesis
      by (auto simp: image_iff filter_empty_conv)
  qed
qed

lemma group_rows:
  assumes "(k, g) \<in> set (groupby key rows)"
  shows "g = filter (\<lambda>r. key r = Some k) rows"
proof -
  have "distinct (map fst (groupby key rows))"
    using sorted_groupby [of key rows] by (simp add: strict_sorted_iff)
  with assms have "map_of (groupby key rows) k = Some g" by simp
  then show ?thesis by (simp add: lookup_groupby split: if_splits)
qed

lemma groupby_eq:
  "groupby key rows =
     map (\<lambda>k. (k, filter (\<lambda>r. key r = Some k) rows))
         (sorted_list_of_set {k. Some k \<in> key ` set rows})"
proof -
  let ?gs = "groupby key rows"
  have fin: "finite {k. Some k \<in> key ` set rows}"
    using keys_groupby [of key rows, symmetric] by simp
  have "sorted (map fst ?gs) \<and> distinct (map fst ?gs)"
    using sorted_groupby [of key rows] by (simp add: strict_sorted_iff)
  then have ks: "map fst ?gs = sorted_list_of_set {k. Some k \<in> key ` set rows}"
    using keys_groupby [of key rows] fin
    by (metis sorted_list_of_set.idem_if_sorted_distinct)
  have "?gs = map (\<lambda>k. (k, filter (\<lambda>r. key r = Some k) rows)) (map fst ?gs)"
    by (rule nth_equalityI) (auto simp: group_rows [of _ _ key rows] intro: prod_eqI dest: nth_mem)
  with ks show ?thesis by simp
qed

section \<open>Grouping by range gate\<close>

lemma series_count_eq: "series_count (map f g) = length (filter (\<lambda>r. f r \<noteq> None) g)"
  by (induction g)
     (auto simp: series_count_def dropna_def List.map_filter_simps split: option.splits)

lemma sum_dr_count:
  "sum_list (map dr_count
      (map (\<lambda>(d, g). let x = map RWS_m_s g
                        in \<lparr>dr_distance = d, dr_mean = series_mean x, dr_std = series_std x,
                            dr_min = series_min x, dr_max = series_max x,
                            dr_count = series_count x\<rparr>) gs))
   = (\<Sum>(k, g) \<leftarrow> gs. length (filter (\<lambda>r. RWS_m_s r \<noteq> None) g))"
  by (induction gs) (auto simp: series_count_eq Let_def)

lemma distance_table_eq:
  "map (\<lambda>row. (dr_distance row, dr_count row))
      (map (\<lambda>(d, g). let x = map RWS_m_s g
                        in \<lparr>dr_distance = d, dr_mean = series_mean x, dr_std = series_std x,
                            dr_min = series_min x, dr_max = series_max x,
                            dr_count = series_count x\<rparr>) (groupby Distance_m data))
   = map (\<lambda>d. (d, length (filter (\<lambda>r. Distance_m r = Some d \<and> RWS_m_s r \<noteq> None) data)))
         (sorted_list_of_set {d. Some d \<in> Distance_m ` set data})"
  by (simp add: groupby_eq comp_def Let_def series_count_eq)

text \<open>
  C7 (as the code has it). When at least one row matches the angles,
  \<open>analyze_rws_by_distance\<close> returns its table: one line per distinct distance value among
  the matching rows, in ascending order, counting the rows of exactly that distance whose
  RWS is present. The counts add up to the number of matching rows whose distance and RWS
  are both present: \<open>groupby\<close> leaves out the rows with a missing distance and \<open>'count'\<close>
  leaves out the missing RWS values. The sum is the number of matching rows when none of
  them has a missing distance or RWS.
\<close>

theorem distance_counts_total:
  assumes "filter (angle_mask azimuth elevation) df \<noteq> []"
  shows "\<exists>distance_stats.
           analyze_rws_by_distance df azimuth elevation = Some distance_stats \<and>
           map (\<lambda>row. (dr_distance row, dr_count row)) distance_stats =
             map (\<lambda>d. (d, length (filter (\<lambda>r. Distance_m r = Some d \<and> RWS_m_s r \<noteq> None)
                                (filter (angle_mask azimuth elevation) df))))
                 (sorted_list_of_set
                    {d. Some d \<in> Distance_m ` set (filter (angle_mask azimuth elevation) df)}) \<and>
           sum_list (map dr_count distance_stats) =
             length (filter (\<lambda>r. Distance_m r \<noteq> None \<and> RWS_m_s r \<noteq> None)
                       (filter (angle_mask azimuth elevation) df)) \<and>
           ((\<forall>r \<in> set (filter (angle_mask azimuth elevation) df).
                Distance_m r \<noteq> None \<and> RWS_m_s r \<noteq> None) \<longrightarrow>
            sum_list (map dr_count distance_stats) =
              length (filter (angle_mask azimuth elevation) df))"
proof -
  let ?data = "filter (angle_mask azimuth elevation) df"
  let ?tbl = "map (\<lambda>(d, g). let x = map RWS_m_s g
                        in \<lparr>dr_distance = d, dr_mean = series_mean x, dr_std = series_std x,
                            dr_min = series_min x, dr_max = series_max x,
                            dr_count = series_count x\<rparr>) (groupby Distance_m ?data)"
  have res: "analyze_rws_by_distance df azimuth elevation = Some ?tbl"
    using assms by (simp add: analyze_rws_by_distance_def)
  have gates: "map (\<lambda>row. (dr_distance row, dr_count row)) ?tbl =
      map (\<lambda>d. (d, length (filter (\<lambda>r. Distance_m r = Some d \<and> RWS_m_s r \<noteq> None) ?data)))
          (sorted_list_of_set {d. Some d \<in> Distance_m ` set ?data})"
    by (rule distance_table_eq)
  have total: "sum_list (map dr_count ?tbl) =
      length (filter (\<lambda>r. Distance_m r \<noteq> None \<and> RWS_m_s r \<noteq> None) ?data)"
    by (simp only: sum_dr_count count_groupby)
  have "(\<forall>r \<in> set ?data. Distance_m r \<noteq> None \<and> RWS_m_s r \<noteq> None) \<longrightarrow>
          filter (\<lambda>r. Distance_m r \<noteq> None \<and> RWS_m_s r \<noteq> None) ?data = ?data"
  proof (rule impI)
    assume h: "\<forall>r \<in> set ?data. Distance_m r \<noteq> None \<and> RWS_m_s r \<noteq> None"
    show "filter (\<lambda>r. Distance_m r \<noteq> None \<and> RWS_m_s r \<noteq> None) ?data = ?data"
      by (rule filter_True) (rule h)
  qed
  with res gates total show ?thesis by (metis (no_types, lifting))
qed

theorem distance_counts_total_witness:
  "filter (angle_mask 0 0)
     [beam 0 0 50 (Some 1) (- 10), beam 0 0 100 (Some 2) (- 10),
      beam 0 0 50 (Some 3) (- 10), beam 90 0 50 (Some 4) (- 10)] \<noteq> [] \<and>
   map (\<lambda>row. (dr_distance row, dr_count row))
     (the (analyze_rws_by_distance
        [beam 0 0 50 (Some 1) (- 10), beam 0 0 100 (Some 2) (- 10),
         beam 0 0 50 (Some 3) (- 10), beam 90 0 50 (Some 4) (- 10)] 0 0))
    = [(50, 2), (100, 1)] \<and>
   length (filter (angle_mask 0 0)
     [beam 0 0 50 (Some 1) (- 10), beam 0 0 100 (Some 2) (- 10),
      beam 0 0 50 (Some 3) (- 10), beam 90 0 50 (Some 4) (- 10)]) = 3"
proof -
  let ?df = "[beam 0 0 50 (Some 1) (- 10), beam 0 0 100 (Some 2) (- 10),
              beam 0 0 50 (Some 3) (- 10), beam 90 0 50 (Some 4) (- 10)]"
  have h: "filter (angle_mask 0 0) ?df \<noteq> []"
    by (simp add: angle_mask_def azimuth_mask_iff elevation_mask_iff beam_def)
  have e: "analyze_rws_by_distance ?df 0 0 =
      Some [\<lparr>dr_distance = 50, dr_mean = Some 2, dr_std = Some (sqrt 2), dr_min = Some 1,
              dr_max = Some 3, dr_count = 2\<rparr>,
            \<lparr>dr_distance = 100, dr_mean = Some 2, dr_std = None, dr_min = Some 2,
              dr_max = Some 2, dr_count = 1\<rparr>]"
    by (simp add: analyze_rws_by_distance_def angle_mask_def azimuth_mask_iff elevation_mask_iff beam_def groupby_def series_count_def dropna_def
        series_mean_def series_std_def series_min_def series_max_def
        List.map_filter_simps Let_def)
  have n: "length (filter (angle_mask 0 0) ?df) = 3"
    by (simp add: angle_mask_def azimuth_mask_iff elevation_mask_iff beam_def)
  from distance_counts_total [OF h] obtain distance_stats where
    "analyze_rws_by_distance ?df 0 0 = Some distance_stats"
    "sum_list (map dr_count distance_stats) =
       length (filter (\<lambda>r. Distance_m r \<noteq> None \<and> RWS_m_s r \<noteq> None)
                 (filter (angle_mask 0 0) ?df))"
    by blast
  with h e n show ?thesis by simp
qed

text \<open>
  C7 as stated fails on a frame whose single matching row has no RWS value: the table has
  one gate with count 0, while the input has one row.
\<close>

theorem distance_counts_missing_rws:
  "analyze_rws_by_distance [beam 0 0 50 None (- 10)] 0 0 =
     Some [\<lparr>dr_distance = 50, dr_mean = None, dr_std = None, dr_min = None, dr_max = None,
            dr_count = 0\<rparr>] \<and>
   length (filter (angle_mask 0 0) [beam 0 0 50 None (- 10)]) = 1"
  by (simp add: analyze_rws_by_distance_def angle_mask_def azimuth_mask_iff elevation_mask_iff beam_def groupby_def series_count_def dropna_def
      List.map_filter_simps series_mean_def series_std_def series_min_def series_max_def)

section \<open>Wind rose\<close>

lemma dropna_map_filter: "dropna (map f g) = List.map_filter f g"
  by (induction g) (simp_all add: dropna_def List.map_filter_simps split: option.splits)

lemma dropna_abs: "dropna (map cell_abs (map f g)) = map abs (List.map_filter f g)"
  by (induction g)
     (simp_all add: dropna_def cell_abs_def List.map_filter_simps split: option.splits)

lemma abs_mean_eq:
  "series_mean (map cell_abs (map f g)) =
     (let v = List.map_filter f g
      in if v = [] then None else Some ((\<Sum>x \<leftarrow> v. \<bar>x\<bar>) / real (length v)))"
  unfolding series_mean_def dropna_abs by (simp add: Let_def)

lemma mean_eq:
  "series_mean (map f g) =
     (let v = List.map_filter f g
      in if v = [] then None else Some (sum_list v / real (length v)))"
  unfolding series_mean_def dropna_map_filter by (simp add: Let_def)

text \<open>
  C8. The wind rose is computed from all rows of the frame that \<open>main\<close> loaded: there is one
  bucket per distinct azimuth value present, in ascending order; the bucket of a value holds
  the rows whose azimuth equals it, whatever their CNR and elevation; its radius is the sum
  of \<open>|RWS|\<close> over the RWS values present in these rows divided by their number, and its
  angle is the azimuth in radians.
\<close>

theorem wind_rose_buckets:
  "azimuth_stats df =
     map (\<lambda>a. let v = List.map_filter RWS_m_s (filter (\<lambda>r. Azimuth_deg r = Some a) df)
              in \<lparr>rr_azimuth = a,
                  rr_mean = (if v = [] then None else Some (sum_list v / real (length v))),
                  rr_abs_mean =
                    (if v = [] then None else Some ((\<Sum>x \<leftarrow> v. \<bar>x\<bar>) / real (length v)))\<rparr>)
         (sorted_list_of_set {a. Some a \<in> Azimuth_deg ` set df}) \<and>
   plot_wind_rose df =
     map (\<lambda>row. (rr_azimuth row * pi / 180, rr_abs_mean row)) (azimuth_stats df) \<and>
   main_wind_rose round2_str df = plot_wind_rose df"
proof -
  have a: "azimuth_stats df =
     map (\<lambda>a. let v = List.map_filter RWS_m_s (filter (\<lambda>r. Azimuth_deg r = Some a) df)
              in \<lparr>rr_azimuth = a,
                  rr_mean = (if v = [] then None else Some (sum_list v / real (length v))),
                  rr_abs_mean =
                    (if v = [] then None else Some ((\<Sum>x \<leftarrow> v. \<bar>x\<bar>) / real (length v)))\<rparr>)
         (sorted_list_of_set {a. Some a \<in> Azimuth_deg ` set df})"
    by (simp only: azimuth_stats_def groupby_eq abs_mean_eq)
       (simp add: mean_eq comp_def Let_def)
  have b: "plot_wind_rose df =
      map (\<lambda>row. (rr_azimuth row * pi / 180, rr_abs_mean row)) (azimuth_stats df)"
    by (simp add: plot_wind_rose_def deg2rad_def zip_map_map zip_same_conv_map)
  have g: "groupby Azimuth_deg (get_data_overview round2_str df) =
           map (\<lambda>(k, g). (k, get_data_overview round2_str g)) (groupby Azimuth_deg df)"
    by (simp add: groupby_eq get_data_overview_def image_image filter_map comp_def)
  have "azimuth_stats (get_data_overview round2_str df) = azimuth_stats df"
    unfolding azimuth_stats_def g by (simp add: get_data_overview_def comp_def case_prod_unfold)
  then have c: "main_wind_rose round2_str df = plot_wind_rose df"
    by (simp add: main_wind_rose_def plot_wind_rose_def)
  from a b c show ?thesis by simp
qed

theorem wind_rose_buckets_witness:
  "azimuth_stats
     [beam 90 0 50 (Some (- 3)) (- 10), beam 0 0 50 (Some (- 2)) (- 30),
      beam 0 45 100 (Some 4) (- 10), beam 0 0 50 None (- 10)] =
     [\<lparr>rr_azimuth = 0, rr_mean = Some 1, rr_abs_mean = Some 3\<rparr>,
      \<lparr>rr_azimuth = 90, rr_mean = Some (- 3), rr_abs_mean = Some 3\<rparr>] \<and>
   main_wind_rose (\<lambda>x. ''a'')
     [beam 90 0 50 (Some (- 3)) (- 10), beam 0 0 50 (Some (- 2)) (- 30),
      beam 0 45 100 (Some 4) (- 10), beam 0 0 50 None (- 10)] =
     [(0, Some 3), (pi / 2, Some 3)]"
proof -
  let ?df = "[beam 90 0 50 (Some (- 3)) (- 10), beam 0 0 50 (Some (- 2)) (- 30),
              beam 0 45 100 (Some 4) (- 10), beam 0 0 50 None (- 10)]"
  have e: "azimuth_stats ?df =
     [\<lparr>rr_azimuth = 0, rr_mean = Some 1, rr_abs_mean = Some 3\<rparr>,
      \<lparr>rr_azimuth = 90, rr_mean = Some (- 3), rr_abs_mean = Some 3\<rparr>]"
    by (simp add: azimuth_stats_def groupby_def beam_def series_mean_def dropna_def cell_abs_def
        List.map_filter_simps)
  from wind_rose_buckets [of ?df "\<lambda>x. ''a''"]
  have m: "main_wind_rose (\<lambda>x. ''a'') ?df =
      map (\<lambda>row. (rr_azimuth row * pi / 180, rr_abs_mean row)) (azimuth_stats ?df)"
    by simp
  show ?thesis unfolding m e by simp
qed

section \<open>Statistics of one angle combination\<close>

lemma series_quantile_level:
  "0 \<le> q \<Longrightarrow> q \<le> 1 \<Longrightarrow> \<exists>v. series_quantile xs q = Inr v"
  by (simp add: series_quantile_def Let_def)

text \<open>
  The guards of lines 146, 200 and 348: an empty selection by angle is not aggregated.
  \<open>single_angle_statistics\<close>, \<open>analyze_rws_by_distance\<close> and \<open>compare_cnr_filtering\<close> stop
  with \<open>None\<close> and without statistics exactly when no row matches the angles, and a
  dictionary returned by \<open>single_angle_statistics\<close> counts at least one row.
\<close>

lemma empty_selection_skipped:
  "(single_angle_statistics df az el = Inr None) = (filter (angle_mask az el) df = []) \<and>
   (analyze_rws_by_distance df az el = None) = (filter (angle_mask az el) df = []) \<and>
   (compare_cnr_filtering df az el t = None) = (filter (angle_mask az el) df = []) \<and>
   (case single_angle_statistics df az el of
      Inl e \<Rightarrow> False
    | Inr None \<Rightarrow> True
    | Inr (Some stats) \<Rightarrow>
        st_count stats = length (filter (angle_mask az el) df) \<and> 0 < st_count stats)"
proof -
  let ?data = "map RWS_m_s (filter (angle_mask az el) df)"
  obtain p10 p50 p90 where q:
    "series_quantile ?data (1 / 10) = Inr p10"
    "series_quantile ?data (1 / 2) = Inr p50"
    "series_quantile ?data (9 / 10) = Inr p90"
    using series_quantile_level [of "1 / 10" ?data] series_quantile_level [of "1 / 2" ?data]
      series_quantile_level [of "9 / 10" ?data] by auto
  show ?thesis
    by (simp add: single_angle_statistics_def analyze_rws_by_distance_def
        compare_cnr_filtering_def q Let_def)
qed

text \<open>
  C3. A sample of zero records is to be caught before it is aggregated, so that no summary
  made of NaN is produced, in particular after the CNR filter of \<open>compare_cnr_filtering\<close>.
  There the filtered sample of line 353 is aggregated without the check that guards the
  selection by angle: one row matches the angles with CNR -25, the threshold -20 removes
  it, and the function goes on normally with \<open>stats_after\<close> made of the count 0 and NaN for
  mean, standard deviation, minimum and maximum.
\<close>

theorem compare_cnr_filtering_nan_summary:
  "compare_cnr_filtering [beam 0 0 50 (Some 1) (- 25)] 0 0 (- 20) =
     Some \<lparr>stats_before = \<lparr>cs_count = 1, cs_mean = Some 1, cs_std = None,
                             cs_min = Some 1, cs_max = Some 1\<rparr>,
           stats_after = \<lparr>cs_count = 0, cs_mean = None, cs_std = None,
                            cs_min = None, cs_max = None\<rparr>,
           retention = 0\<rparr>"
  by (simp add: compare_cnr_filtering_def rws_stats_def angle_mask_def azimuth_mask_iff elevation_mask_iff cnr_mask_def cell_ge_def beam_def
      series_mean_def series_std_def series_min_def series_max_def dropna_def
      List.map_filter_simps)

text \<open>
  C4. When the selected RWS sample is 1, 2, 3, 4, 5, \<open>single_angle_statistics\<close> returns the
  count 5, mean 3, median 3, standard deviation \<open>sqrt 2.5\<close> (division by \<open>n - 1\<close>),
  minimum 1, maximum 5 and the quantiles 1.4, 3 and 4.6 at the levels 0.1, 0.5 and 0.9
  (linear interpolation at position \<open>q * (n - 1)\<close>).
\<close>

theorem statistics_of_one_to_five:
  assumes "map RWS_m_s (filter (angle_mask az el) df) = [Some 1, Some 2, Some 3, Some 4, Some 5]"
  shows "single_angle_statistics df az el =
           Inr (Some \<lparr>st_count = 5, st_mean = Some 3, st_median = Some 3,
                      st_std = Some (sqrt (5 / 2)), st_min = Some 1, st_max = Some 5,
                      st_P10 = Some (7 / 5), st_P50 = Some 3, st_P90 = Some (23 / 5)\<rparr>)"
proof -
  let ?data = "[Some 1, Some 2, Some 3, Some 4, Some (5::real)]"
  have d: "dropna ?data = [1, 2, 3, 4, 5]"
    by (simp add: dropna_def List.map_filter_simps)
  have "series_mean ?data = Some 3"
    by (simp add: series_mean_def d)
  moreover have "series_median ?data = Some 3"
    by (simp add: series_median_def d)
  moreover have "series_std ?data = Some (sqrt (5 / 2))"
    by (simp add: series_std_def d)
  moreover have "series_min ?data = Some 1"
    by (simp add: series_min_def d)
  moreover have "series_max ?data = Some 5"
    by (simp add: series_max_def d)
  moreover have "series_quantile ?data (1 / 10) = Inr (Some (7 / 5))"
    by (simp add: series_quantile_def d)
  moreover have "series_quantile ?data (1 / 2) = Inr (Some 3)"
    by (simp add: series_quantile_def d)
  moreover have "series_quantile ?data (9 / 10) = Inr (Some (23 / 5))"
    by (simp add: series_quantile_def d)
  ultimately show ?thesis
    unfolding single_angle_statistics_def Let_def assms by simp
qed

theorem statistics_of_one_to_five_witness:
  "map RWS_m_s (filter (angle_mask 10 5)
      [beam 10 5 50 (Some 1) (- 10), beam 10 5 100 (Some 2) (- 10), beam 90 5 50 (Some 7) (- 10),
       beam 10 5 150 (Some 3) (- 10), beam 10 5 200 (Some 4) (- 30), beam 10 5 250 (Some 5) (- 10)])
     = [Some 1, Some 2, Some 3, Some 4, Some 5] \<and>
   single_angle_statistics
      [beam 10 5 50 (Some 1) (- 10), beam 10 5 100 (Some 2) (- 10), beam 90 5 50 (Some 7) (- 10),
       beam 10 5 150 (Some 3) (- 10), beam 10 5 200 (Some 4) (- 30), beam 10 5 250 (Some 5) (- 10)]
      10 5 =
     Inr (Some \<lparr>st_count = 5, st_mean = Some 3, st_median = Some 3,
                st_std = Some (sqrt (5 / 2)), st_min = Some 1, st_max = Some 5,
                st_P10 = Some (7 / 5), st_P50 = Some 3, st_P90 = Some (23 / 5)\<rparr>)"
proof -
  have h: "map RWS_m_s (filter (angle_mask 10 5)
      [beam 10 5 50 (Some 1) (- 10), beam 10 5 100 (Some 2) (- 10), beam 90 5 50 (Some 7) (- 10),
       beam 10 5 150 (Some 3) (- 10), beam 10 5 200 (Some 4) (- 30), beam 10 5 250 (Some 5) (- 10)])
     = [Some 1, Some 2, Some 3, Some 4, Some 5]"
    by (simp add: angle_mask_def azimuth_mask_iff elevation_mask_iff beam_def)
  from h statistics_of_one_to_five [OF h] show ?thesis by simp
qed

section \<open>Effect of the stages on their input frame\<close>

lemma loaded_columns_overview:
  "map loaded_columns (get_data_overview round2_str d) = map loaded_columns d"
  by (simp add: get_data_overview_def loaded_columns_def)

text \<open>
  C9 (as the code has it). The filter and the statistics leave the frame they are given as
  it is: the filter returns a new frame, the statistics only read. \<open>get_data_overview\<close>
  returns the frame it was given after changing it in place: the rows, their order and the
  six loaded columns stay, the column \<open>AngleComb\<close> is set in every row; no other frame
  changes.
\<close>

theorem stages_effect_on_input:
  assumes "df < length s"
  shows "(case apply_cnr_filter_obj df t s of
            Inl e \<Rightarrow> True
          | Inr (out, s') \<Rightarrow> out \<noteq> df \<and> s' ! df = s ! df) \<and>
         snd (single_angle_statistics_obj df az el s) ! df = s ! df \<and>
         fst (get_data_overview_obj round2_str df s) = df \<and>
         map loaded_columns (snd (get_data_overview_obj round2_str df s) ! df) =
           map loaded_columns (s ! df) \<and>
         map AngleComb (snd (get_data_overview_obj round2_str df s) ! df) =
           map (\<lambda>r. Some (round2_str (Azimuth_deg r) @ ''_'' @ round2_str (Elevation_deg r)))
               (s ! df) \<and>
         (\<forall>other < length s. other \<noteq> df \<longrightarrow>
            snd (get_data_overview_obj round2_str df s) ! other = s ! other)"
proof -
  have a: "case apply_cnr_filter_obj df t s of
             Inl e \<Rightarrow> True
           | Inr (out, s') \<Rightarrow> out \<noteq> df \<and> s' ! df = s ! df"
    using assms
    by (auto simp: apply_cnr_filter_obj_def new_frame_def nth_append split: sum.splits)
  have b: "snd (single_angle_statistics_obj df az el s) ! df = s ! df"
    using assms by (simp add: single_angle_statistics_obj_def new_frame_def nth_append)
  have c: "snd (get_data_overview_obj round2_str df s) ! df =
           get_data_overview round2_str (s ! df)"
    using assms by (simp add: get_data_overview_obj_def)
  have d: "map AngleComb (get_data_overview round2_str (s ! df)) =
           map (\<lambda>r. Some (round2_str (Azimuth_deg r) @ ''_'' @ round2_str (Elevation_deg r)))
               (s ! df)"
    by (simp add: get_data_overview_def)
  have e: "\<forall>other < length s. other \<noteq> df \<longrightarrow>
             snd (get_data_overview_obj round2_str df s) ! other = s ! other"
    by (simp add: get_data_overview_obj_def)
  from a b c d e show ?thesis
    by (simp add: loaded_columns_overview get_data_overview_obj_def)
qed

theorem stages_effect_on_input_witness:
  "(0::nat) < length [[beam 10 5 50 (Some 1) (- 10), beam 10 5 50 (Some 2) (- 30)],
                      [beam 90 5 50 (Some 3) (- 10)]] \<and>
   apply_cnr_filter_obj 0 (- 20)
       [[beam 10 5 50 (Some 1) (- 10), beam 10 5 50 (Some 2) (- 30)],
        [beam 90 5 50 (Some 3) (- 10)]]
     = Inr (2, [[beam 10 5 50 (Some 1) (- 10), beam 10 5 50 (Some 2) (- 30)],
                [beam 90 5 50 (Some 3) (- 10)],
                [beam 10 5 50 (Some 1) (- 10)]]) \<and>
   get_data_overview_obj (\<lambda>x. ''a'') 0
       [[beam 10 5 50 (Some 1) (- 10), beam 10 5 50 (Some 2) (- 30)],
        [beam 90 5 50 (Some 3) (- 10)]]
     = (0, [[(beam 10 5 50 (Some 1) (- 10))\<lparr>AngleComb := Some ''a_a''\<rparr>,
             (beam 10 5 50 (Some 2) (- 30))\<lparr>AngleComb := Some ''a_a''\<rparr>],
            [beam 90 5 50 (Some 3) (- 10)]])"
  using stages_effect_on_input [of 0
      "[[beam 10 5 50 (Some 1) (- 10), beam 10 5 50 (Some 2) (- 30)],
        [beam 90 5 50 (Some 3) (- 10)]]" "- 20" 10 5 "\<lambda>x. ''a''"]
  by (simp add: apply_cnr_filter_obj_def apply_cnr_filter_def new_frame_def cnr_mask_def
      cell_ge_def get_data_overview_obj_def get_data_overview_def beam_def)

text \<open>
  C9 as stated fails for the overview: after \<open>get_data_overview\<close> the frame it was given
  has the column \<open>AngleComb\<close>, which it did not have before.
\<close>

theorem get_data_overview_changes_input:
  "snd (get_data_overview_obj (\<lambda>x. ''a'') 0 [[beam 10 5 50 (Some 1) (- 10)]]) ! 0
     = [(beam 10 5 50 (Some 1) (- 10))\<lparr>AngleComb := Some ''a_a''\<rparr>] \<and>
   snd (get_data_overview_obj (\<lambda>x. ''a'') 0 [[beam 10 5 50 (Some 1) (- 10)]]) ! 0
     \<noteq> [beam 10 5 50 (Some 1) (- 10)]"
  by (simp add: get_data_overview_obj_def get_data_overview_def beam_def)

end
